theory Spec2Isabelle
  imports Main
begin

section \<open>The translation manager of the i18n package\<close>

text \<open>
  A shallow embedding of the class \<open>I18nManager\<close> of \<^verbatim>\<open>src/i18n_manager.ts\<close>.
  Every method is a function on the record of the private fields; a method that
  assigns a field returns the new record, a method that can throw returns a sum
  whose left injection is the exception, and every call of a plugin factory is
  reported in a list of calls returned beside the result.
\<close>

subsection \<open>Plain objects\<close>

text \<open>
  A plain JavaScript object used as a dictionary is the list of its own enumerable
  string-keyed properties in the order of their insertion, which for an object
  literal is the order of declaration. The objects of the program are the
  configuration and its parts, the results of the loaders, the two registries and the
  store; all of them are taken to be ordinary objects whose prototype is
  \<^verbatim>\<open>Object.prototype\<close>, and \<^verbatim>\<open>Object.prototype\<close> is taken to be as the language
  defines it when a method of the manager starts.
\<close>

type_synonym 'v object = "(string \<times> 'v) list"

text \<open>
  \<^verbatim>\<open>Object.keys\<close> enumerates the keys that are array indices first, in ascending
  numeric order, and then the other keys in the order of insertion. An array index is
  the canonical decimal form of a number below \<open>2\<^sup>3\<^sup>2 - 1\<close>.
\<close>

definition is_digit :: "char \<Rightarrow> bool" where
  "is_digit c = (c \<in> set ''0123456789'')"

definition decimal :: "string \<Rightarrow> int" where
  "decimal s = fold (\<lambda>c n. 10 * n + (of_char c - 48)) s 0"

definition is_array_index :: "string \<Rightarrow> bool" where
  "is_array_index s =
     (s \<noteq> [] \<and> list_all is_digit s \<and> (s = ''0'' \<or> hd s \<noteq> CHR ''0'') \<and>
      decimal s < 4294967295)"

definition object_keys :: "'v object \<Rightarrow> string list" where
  "object_keys obj =
     sort_key decimal (filter is_array_index (map fst obj)) @
     filter (\<lambda>k. \<not> is_array_index k) (map fst obj)"

text \<open>
  The names of the properties of \<^verbatim>\<open>Object.prototype\<close>. Every one of them is a function,
  except \<^verbatim>\<open>__proto__\<close>, an accessor whose getter returns the prototype of the object,
  here \<^verbatim>\<open>Object.prototype\<close> itself, and whose setter ignores a value that is neither an
  object nor \<^verbatim>\<open>null\<close>.
\<close>

definition prototype_members :: "string list" where
  "prototype_members =
     [''constructor'', ''__defineGetter__'', ''__defineSetter__'', ''hasOwnProperty'',
      ''__lookupGetter__'', ''__lookupSetter__'', ''isPrototypeOf'', ''propertyIsEnumerable'',
      ''toString'', ''valueOf'', ''__proto__'', ''toLocaleString'']"

text \<open>
  \<^verbatim>\<open>obj[k]\<close>: the own property, or else the property of that name inherited from
  \<^verbatim>\<open>Object.prototype\<close>, or else \<^verbatim>\<open>undefined\<close>. An inherited member is truthy and is
  neither a string nor a dictionary.
\<close>

datatype 'v property = Own 'v | Inherited string | Absent

definition object_get :: "'v object \<Rightarrow> string \<Rightarrow> 'v property" where
  "object_get obj k =
     (case map_of obj k of
        Some v \<Rightarrow> Own v
      | None \<Rightarrow> if k \<in> set prototype_members then Inherited k else Absent)"

text \<open>The same read on a registry, whose own properties are a map from names.\<close>

definition registry_get :: "(string \<rightharpoonup> 'a) \<Rightarrow> string \<Rightarrow> 'a property" where
  "registry_get registry k =
     (case registry k of
        Some v \<Rightarrow> Own v
      | None \<Rightarrow> if k \<in> set prototype_members then Inherited k else Absent)"

text \<open>Defining or updating an own property: an existing property keeps its place, a
  new one goes last.\<close>

fun object_set :: "'v object \<Rightarrow> string \<Rightarrow> 'v \<Rightarrow> 'v object" where
  "object_set [] k v = [(k, v)]"
| "object_set ((k', v') # obj) k v =
     (if k' = k then (k, v) # obj else (k', v') # object_set obj k v)"

text \<open>
  \<^verbatim>\<open>Object.assign(target, source)\<close> for a target that is a dictionary of strings: for
  every own key of the source, in the order of \<^verbatim>\<open>Object.keys\<close>, the value read from
  the source is assigned to the target. The assignment of a key \<^verbatim>\<open>__proto__\<close> that the
  target does not own reaches the inherited setter, which ignores a string.
\<close>

definition object_assign :: "string object \<Rightarrow> string object \<Rightarrow> string object" where
  "object_assign target source =
     fold (\<lambda>k t. case map_of source k of
                    None \<Rightarrow> t
                  | Some v \<Rightarrow> if k = ''__proto__'' \<and> map_of t k = None then t
                              else object_set t k v)
       (object_keys source) target"

text \<open>
  A place that is meant to hold a value of some type and may hold a member of
  \<^verbatim>\<open>Object.prototype\<close> instead, found by a read through the prototype.
  \<open>Member ''__proto__''\<close> is \<^verbatim>\<open>Object.prototype\<close>, every other member is a function.
\<close>

datatype 'v slot = Plain 'v | Member string

subsection \<open>Configuration, errors and plugins\<close>

text \<open>The options of one loader: the flag \<^verbatim>\<open>enabled\<close>; the loader's own options are the
  extension of the record.\<close>

record loader_options =
  enabled :: bool

text \<open>\<^verbatim>\<open>I18nConfig\<close>. An optional property is an \<open>option\<close>; an array and an object are
  truthy whatever they hold, so \<open>Some []\<close> is a configured value.\<close>

record i18n_config =
  config_defaultLocale :: string
  config_supportedLocales :: "string list option"
  config_fallbackLocales :: "string object option"
  config_loaders :: "loader_options object"
  config_translationsFormat :: string
  config_fallback :: "(string \<Rightarrow> string \<Rightarrow> string option) option"

text \<open>
  What ends a method early: the \<^verbatim>\<open>RuntimeException\<close> of the manager with its message,
  whatever a loader fails with, or a \<^verbatim>\<open>TypeError\<close> of the language. \<open>Unmodelled\<close> is
  not an exception: it marks the point where the code assigns a property of
  \<^verbatim>\<open>Object.prototype\<close> or of one of its methods, which every object of the program
  shares, or replaces the prototype of a registry. The code goes on from there; the
  model does not follow it, and the state returned with \<open>Unmodelled\<close> is the one
  reached just before.
\<close>

datatype error = RuntimeException string | LoaderFailure string | TypeError | Unmodelled

text \<open>A settled promise.\<close>

datatype 'a promise = Resolved 'a | Rejected error

text \<open>The translations one loader produces: locale to key to message. The store of the
  manager has the same shape, except that the value found under a locale may be a
  member of \<^verbatim>\<open>Object.prototype\<close>.\<close>

type_synonym Translations = "string object object"

type_synonym store = "string object slot object"

text \<open>
  \<^verbatim>\<open>ManagerLoaderFactory\<close>, composed with the \<^verbatim>\<open>load\<close> call that follows it in the only
  place a factory is used: \<^verbatim>\<open>loaderFactory(config).load()\<close> either throws at once
  (\<open>Inl\<close>) or returns a promise. \<^verbatim>\<open>ManagerFormatterFactory\<close> builds a formatter, an
  opaque object of type \<open>'f\<close>.
\<close>

type_synonym loader_factory = "i18n_config \<Rightarrow> error + Translations promise"

type_synonym 'f formatter_factory = "i18n_config \<Rightarrow> 'f"

text \<open>
  What \<^verbatim>\<open>#formatter\<close> can hold: the formatter a registered factory made, or what the
  two members of \<^verbatim>\<open>Object.prototype\<close> that return when called as a factory give:
  \<^verbatim>\<open>toString\<close>, called without a receiver, the string \<^verbatim>\<open>[object Undefined]\<close>, and
  \<^verbatim>\<open>constructor\<close>, that is \<^verbatim>\<open>Object\<close>, the configuration it was given. All three are
  truthy.
\<close>

datatype 'f formatter = Made 'f | Object_Undefined_String | Config_Object

text \<open>The calls of plugin factories a method makes, by registered name.\<close>

datatype call = is_LoaderCall: LoaderCall string | is_FormatterCall: FormatterCall string

subsection \<open>The manager\<close>

text \<open>The private fields \<^verbatim>\<open>#config\<close>, \<^verbatim>\<open>#formatters\<close>, \<^verbatim>\<open>#formatter\<close>, \<^verbatim>\<open>#loaders\<close>,
  \<^verbatim>\<open>#inferredLocales\<close>, \<^verbatim>\<open>#translations\<close> and \<^verbatim>\<open>#hasCachedTranslations\<close>. The two
  registries are only ever read by name, so their own properties are maps.\<close>

record 'f i18n_manager =
  priv_config :: i18n_config
  priv_formatters :: "string \<rightharpoonup> 'f formatter_factory"
  priv_formatter :: "'f formatter option"
  priv_loaders :: "string \<rightharpoonup> loader_factory"
  priv_inferredLocales :: "string list"
  priv_translations :: store
  priv_hasCachedTranslations :: bool

text \<open>
  The constructor with the field initialisers. The built-in formatter \<^verbatim>\<open>icu\<close> and the
  built-in loader \<^verbatim>\<open>fs\<close> live in other files of the package and are parameters here.
\<close>

definition I18nManager ::
  "'f formatter_factory \<Rightarrow> loader_factory \<Rightarrow> i18n_config \<Rightarrow> 'f i18n_manager" where
  "I18nManager icu fs config =
     \<lparr> priv_config = config,
       priv_formatters = [''icu'' \<mapsto> icu],
       priv_formatter = None,
       priv_loaders = [''fs'' \<mapsto> fs],
       priv_inferredLocales = [],
       priv_translations = [],
       priv_hasCachedTranslations = False \<rparr>"

definition defaultLocale :: "'f i18n_manager \<Rightarrow> string" where
  "defaultLocale m = config_defaultLocale (priv_config m)"

definition hasCachedTranslations :: "'f i18n_manager \<Rightarrow> bool" where
  "hasCachedTranslations m = priv_hasCachedTranslations m"

definition supportedLocales :: "'f i18n_manager \<Rightarrow> string list" where
  "supportedLocales m =
     (case config_supportedLocales (priv_config m) of
        Some locales \<Rightarrow> locales
      | None \<Rightarrow> priv_inferredLocales m)"

definition getTranslations :: "'f i18n_manager \<Rightarrow> store" where
  "getTranslations m = priv_translations m"

text \<open>\<^verbatim>\<open>this.#translations[locale] || {}\<close>: an object and a function are truthy.\<close>

definition getTranslationsFor :: "'f i18n_manager \<Rightarrow> string \<Rightarrow> string object slot" where
  "getTranslationsFor m locale =
     (case object_get (priv_translations m) locale of
        Own found \<Rightarrow> found
      | Inherited member \<Rightarrow> Member member
      | Absent \<Rightarrow> Plain [])"

definition quoted :: "string \<Rightarrow> string" where
  "quoted s = [CHR 0x22] @ s @ [CHR 0x22]"

text \<open>
  When the name of the format is not an own property of the registry but the name of a
  member of \<^verbatim>\<open>Object.prototype\<close>, the test \<^verbatim>\<open>!formatterFactory\<close> passes and the member
  is called on the configuration, without a receiver: \<^verbatim>\<open>toString\<close> and
  \<^verbatim>\<open>constructor\<close> return, the other functions convert the missing receiver to an
  object and throw a \<^verbatim>\<open>TypeError\<close>, and \<^verbatim>\<open>__proto__\<close> is not a function.
\<close>

definition getFormatter ::
  "'f i18n_manager \<Rightarrow> (error + 'f formatter) \<times> 'f i18n_manager \<times> call list" where
  "getFormatter m =
     (case priv_formatter m of
        Some formatter \<Rightarrow> (Inr formatter, m, [])
      | None \<Rightarrow>
          (case registry_get (priv_formatters m) (config_translationsFormat (priv_config m)) of
             Absent \<Rightarrow>
               (Inl (RuntimeException
                  (''Invalid i18n formatter '' @ quoted (config_translationsFormat (priv_config m)))),
                m, [])
           | Own formatterFactory \<Rightarrow>
               (Inr (Made (formatterFactory (priv_config m))),
                m\<lparr>priv_formatter := Some (Made (formatterFactory (priv_config m)))\<rparr>,
                [FormatterCall (config_translationsFormat (priv_config m))])
           | Inherited member \<Rightarrow>
               (if member = ''toString''
                then (Inr Object_Undefined_String,
                      m\<lparr>priv_formatter := Some Object_Undefined_String\<rparr>, [])
                else if member = ''constructor''
                then (Inr Config_Object, m\<lparr>priv_formatter := Some Config_Object\<rparr>, [])
                else (Inl TypeError, m, []))))"

subsection \<open>Loading\<close>

text \<open>\<^verbatim>\<open>Object.keys(config.loaders).filter((loader) => config.loaders[loader]?.enabled)\<close>:
  the names are own keys, so the read finds the own property.\<close>

definition enabled_loaders :: "i18n_config \<Rightarrow> string list" where
  "enabled_loaders config =
     filter (\<lambda>loader. case map_of (config_loaders config) loader of
                         Some opts \<Rightarrow> enabled opts
                       | None \<Rightarrow> False)
       (object_keys (config_loaders config))"

text \<open>
  The callback of \<^verbatim>\<open>.map\<close>, run over the enabled names from left to right. A name with
  no factory throws the \<^verbatim>\<open>RuntimeException\<close> and a factory that throws stops the
  \<^verbatim>\<open>map\<close>; in both cases the loaders after it are not reached, the ones before it
  have been called. A name that is not registered but names a member of
  \<^verbatim>\<open>Object.prototype\<close> passes the test \<^verbatim>\<open>!loaderFactory\<close>, and
  \<^verbatim>\<open>loaderFactory(config).load()\<close> throws a \<^verbatim>\<open>TypeError\<close>: the member throws, or is not
  a function, or returns something that has no method \<^verbatim>\<open>load\<close>.
\<close>

fun invoke_loaders ::
  "'f i18n_manager \<Rightarrow> string list \<Rightarrow> (error + Translations promise list) \<times> call list" where
  "invoke_loaders m [] = (Inr [], [])"
| "invoke_loaders m (loader # rest) =
     (case registry_get (priv_loaders m) loader of
        Absent \<Rightarrow> (Inl (RuntimeException (''Invalid i18n loader '' @ quoted loader)), [])
      | Inherited member \<Rightarrow> (Inl TypeError, [])
      | Own loaderFactory \<Rightarrow>
          (case loaderFactory (priv_config m) of
             Inl e \<Rightarrow> (Inl e, [LoaderCall loader])
           | Inr p \<Rightarrow>
               (case invoke_loaders m rest of
                  (Inl e, calls) \<Rightarrow> (Inl e, LoaderCall loader # calls)
                | (Inr ps, calls) \<Rightarrow> (Inr (p # ps), LoaderCall loader # calls))))"

text \<open>
  \<^verbatim>\<open>Promise.all\<close> on settled promises: the results in the order of the promises, or a
  rejection when one of them is rejected. Which rejection is reported when several
  promises reject depends on the time they settle; the model reports the leftmost.
\<close>

fun promise_all :: "'a promise list \<Rightarrow> 'a list promise" where
  "promise_all [] = Resolved []"
| "promise_all (Rejected e # ps) = Rejected e"
| "promise_all (Resolved x # ps) =
     (case promise_all ps of
        Rejected e \<Rightarrow> Rejected e
      | Resolved xs \<Rightarrow> Resolved (x # xs))"

text \<open>
  \<^verbatim>\<open>Object.assign(target, source)\<close> for a target that is a member of
  \<^verbatim>\<open>Object.prototype\<close>. A key \<^verbatim>\<open>__proto__\<close> of the source is ignored by the inherited
  setter. With no other key nothing is assigned. Otherwise the first other key is
  assigned: on a function the properties \<^verbatim>\<open>name\<close> and \<^verbatim>\<open>length\<close> are not writable and
  \<^verbatim>\<open>Object.assign\<close> throws a \<^verbatim>\<open>TypeError\<close>; any other assignment changes an object that
  the whole program shares.
\<close>

definition assign_to_member :: "string \<Rightarrow> string object \<Rightarrow> error + unit" where
  "assign_to_member member source =
     (case filter (\<lambda>key. key \<noteq> ''__proto__'') (object_keys source) of
        [] \<Rightarrow> Inr ()
      | key # rest \<Rightarrow>
          if member \<noteq> ''__proto__'' \<and> (key = ''name'' \<or> key = ''length'')
          then Inl TypeError
          else Inl Unmodelled)"

text \<open>
  The body of the inner \<^verbatim>\<open>forEach\<close>, for one locale of one loader's result. The read
  \<^verbatim>\<open>this.#translations[lang]\<close> finds a dictionary the merge has made, or nothing, or,
  for a locale named like a member of \<^verbatim>\<open>Object.prototype\<close>, that member. The
  assignment \<^verbatim>\<open>this.#translations[lang] = ...\<close> then makes the member an own property
  of the store, except for \<^verbatim>\<open>__proto__\<close>, where it reaches the setter and sets the
  prototype of the store to what it already is.
\<close>

definition merge_lang ::
  "Translations \<Rightarrow> string \<Rightarrow> 'f i18n_manager \<Rightarrow> (error + unit) \<times> 'f i18n_manager" where
  "merge_lang translations lang m =
     (let m1 = (if lang \<in> set (priv_inferredLocales m) then m
                else m\<lparr>priv_inferredLocales := priv_inferredLocales m @ [lang]\<rparr>);
          source = (case map_of translations lang of Some messages \<Rightarrow> messages | None \<Rightarrow> [])
      in case object_get (priv_translations m1) lang of
           Absent \<Rightarrow>
             (Inr (), m1\<lparr>priv_translations :=
                           object_set (priv_translations m1) lang (Plain (object_assign [] source))\<rparr>)
         | Own (Plain target) \<Rightarrow>
             (Inr (), m1\<lparr>priv_translations :=
                           object_set (priv_translations m1) lang (Plain (object_assign target source))\<rparr>)
         | Own (Member member) \<Rightarrow> (assign_to_member member source, m1)
         | Inherited member \<Rightarrow>
             (assign_to_member member source,
              if member = ''__proto__'' then m1
              else m1\<lparr>priv_translations := object_set (priv_translations m1) lang (Member member)\<rparr>))"

text \<open>The inner and the outer \<^verbatim>\<open>forEach\<close>; an exception ends both.\<close>

fun merge_langs ::
  "Translations \<Rightarrow> string list \<Rightarrow> 'f i18n_manager \<Rightarrow> (error + unit) \<times> 'f i18n_manager" where
  "merge_langs translations [] m = (Inr (), m)"
| "merge_langs translations (lang # rest) m =
     (case merge_lang translations lang m of
        (Inl e, m') \<Rightarrow> (Inl e, m')
      | (Inr u, m') \<Rightarrow> merge_langs translations rest m')"

definition merge_translations ::
  "Translations \<Rightarrow> 'f i18n_manager \<Rightarrow> (error + unit) \<times> 'f i18n_manager" where
  "merge_translations translations m = merge_langs translations (object_keys translations) m"

fun merge_stack ::
  "Translations list \<Rightarrow> 'f i18n_manager \<Rightarrow> (error + unit) \<times> 'f i18n_manager" where
  "merge_stack [] m = (Inr (), m)"
| "merge_stack (translations # rest) m =
     (case merge_translations translations m of
        (Inl e, m') \<Rightarrow> (Inl e, m')
      | (Inr u, m') \<Rightarrow> merge_stack rest m')"

text \<open>The three assignments between the \<^verbatim>\<open>await\<close> and the merge: the flag, the
  empty store, and the inferred locales that do not depend on the loaders.\<close>

definition reset_for_reload :: "'f i18n_manager \<Rightarrow> 'f i18n_manager" where
  "reset_for_reload m =
     (let m1 = m\<lparr>priv_hasCachedTranslations := True\<rparr>;
          m2 = m1\<lparr>priv_translations := []\<rparr>
      in m2\<lparr>priv_inferredLocales :=
               [defaultLocale m2] @
               (case config_fallbackLocales (priv_config m2) of
                  Some fallbackLocales \<Rightarrow> object_keys fallbackLocales
                | None \<Rightarrow> [])\<rparr>)"

text \<open>
  Nothing is assigned before the promise of \<^verbatim>\<open>Promise.all\<close> is fulfilled: an exception
  thrown in the \<^verbatim>\<open>map\<close> and a rejection both leave the method with the fields as they
  were. An exception in the merge leaves it with the fields assigned so far.
\<close>

definition reloadTranslations ::
  "'f i18n_manager \<Rightarrow> (error + unit) \<times> 'f i18n_manager \<times> call list" where
  "reloadTranslations m =
     (case invoke_loaders m (enabled_loaders (priv_config m)) of
        (Inl e, calls) \<Rightarrow> (Inl e, m, calls)
      | (Inr promises, calls) \<Rightarrow>
          (case promise_all promises of
             Rejected e \<Rightarrow> (Inl e, m, calls)
           | Resolved translationsStack \<Rightarrow>
               (case merge_stack translationsStack (reset_for_reload m) of
                  (r, m') \<Rightarrow> (r, m', calls))))"

definition loadTranslations ::
  "'f i18n_manager \<Rightarrow> (error + unit) \<times> 'f i18n_manager \<times> call list" where
  "loadTranslations m =
     (if \<not> hasCachedTranslations m then reloadTranslations m else (Inr (), m, []))"

subsection \<open>Locales\<close>

text \<open>
  \<^verbatim>\<open>getSupportedLocaleFor\<close> hands the header and the supported locales to the package
  \<^verbatim>\<open>negotiator\<close>, which is not part of this repository: its method \<^verbatim>\<open>language\<close> is the
  parameter \<open>language\<close>, from the header's text and the available locales to the
  chosen one. An array of preferences is joined with commas.
\<close>

datatype user_language = Single string | Many "string list"

fun join_comma :: "string list \<Rightarrow> string" where
  "join_comma [] = []"
| "join_comma [s] = s"
| "join_comma (s # t # rest) = s @ '','' @ join_comma (t # rest)"

definition getSupportedLocaleFor ::
  "(string \<Rightarrow> string list \<Rightarrow> string option) \<Rightarrow> 'f i18n_manager \<Rightarrow> user_language \<Rightarrow>
   string option" where
  "getSupportedLocaleFor language m userLanguage =
     (case language (case userLanguage of Many ls \<Rightarrow> join_comma ls | Single s \<Rightarrow> s)
             (supportedLocales m) of
        None \<Rightarrow> None
      | Some l \<Rightarrow> if l = [] then None else Some l)"

text \<open>\<^verbatim>\<open>fallbackLocales[locale] || defaultLocale\<close>: the empty string is falsy, a member
  of \<^verbatim>\<open>Object.prototype\<close> is truthy and is returned as it is.\<close>

definition getFallbackLocaleFor :: "'f i18n_manager \<Rightarrow> string \<Rightarrow> string slot" where
  "getFallbackLocaleFor m locale =
     (case config_fallbackLocales (priv_config m) of
        None \<Rightarrow> Plain (defaultLocale m)
      | Some fallbackLocales \<Rightarrow>
          (case object_get fallbackLocales locale of
             Own fallback \<Rightarrow> if fallback = [] then Plain (defaultLocale m) else Plain fallback
           | Inherited member \<Rightarrow> Member member
           | Absent \<Rightarrow> Plain (defaultLocale m)))"

definition getFallbackMessage :: "'f i18n_manager \<Rightarrow> string \<Rightarrow> string \<Rightarrow> string option" where
  "getFallbackMessage m identifier locale =
     (case config_fallback (priv_config m) of
        None \<Rightarrow> None
      | Some fallback \<Rightarrow> fallback identifier locale)"

subsection \<open>Plugins\<close>

text \<open>
  \<^verbatim>\<open>this.#loaders[name] = callback\<close> defines or updates an own property of the
  registry, except for the name \<^verbatim>\<open>__proto__\<close>: that assignment reaches the inherited
  setter and makes the callback the prototype of the registry.
\<close>

datatype 'f plugin = Loader loader_factory | Formatter "'f formatter_factory"

fun extend ::
  "string \<Rightarrow> 'f plugin \<Rightarrow> 'f i18n_manager \<Rightarrow> (error + unit) \<times> 'f i18n_manager \<times> call list" where
  "extend name (Loader callback) m =
     (if name = ''__proto__'' then (Inl Unmodelled, m, [])
      else (Inr (), m\<lparr>priv_loaders := (priv_loaders m)(name \<mapsto> callback)\<rparr>, []))"
| "extend name (Formatter callback) m =
     (if name = ''__proto__'' then (Inl Unmodelled, m, [])
      else (Inr (), m\<lparr>priv_formatters := (priv_formatters m)(name \<mapsto> callback)\<rparr>, []))"

subsection \<open>Sequences of calls\<close>

text \<open>
  The methods that assign a field, as commands a caller issues one after the other
  for the lifetime of a manager. An exception is caught by the caller, who goes on:
  the run continues from the state the failed method left. The run ends where the
  model does, at \<open>Unmodelled\<close>.
\<close>

datatype 'f command = GetFormatter | LoadTranslations | ReloadTranslations | Extend string "'f plugin"

fun exec ::
  "'f command \<Rightarrow> 'f i18n_manager \<Rightarrow>
   (error + 'f formatter option) \<times> 'f i18n_manager \<times> call list" where
  "exec GetFormatter m =
     (case getFormatter m of (r, m', calls) \<Rightarrow> (map_sum id Some r, m', calls))"
| "exec LoadTranslations m =
     (case loadTranslations m of (r, m', calls) \<Rightarrow> (map_sum id (\<lambda>_. None) r, m', calls))"
| "exec ReloadTranslations m =
     (case reloadTranslations m of (r, m', calls) \<Rightarrow> (map_sum id (\<lambda>_. None) r, m', calls))"
| "exec (Extend name p) m =
     (case extend name p m of (r, m', calls) \<Rightarrow> (map_sum id (\<lambda>_. None) r, m', calls))"

fun run :: "'f command list \<Rightarrow> 'f i18n_manager \<Rightarrow> 'f i18n_manager \<times> call list" where
  "run [] m = (m, [])"
| "run (c # cs) m =
     (case exec c m of
        (Inl Unmodelled, m', calls) \<Rightarrow> (m', calls)
      | (r, m', calls) \<Rightarrow> (case run cs m' of (m'', calls') \<Rightarrow> (m'', calls @ calls')))"

subsection \<open>Observations and examples\<close>

text \<open>The message a loader's result holds for a locale and a key, both own
  properties, and the message the store holds under a locale that is a dictionary.\<close>

definition message_of :: "Translations \<Rightarrow> string \<Rightarrow> string \<Rightarrow> string option" where
  "message_of t locale key =
     (case map_of t locale of None \<Rightarrow> None | Some messages \<Rightarrow> map_of messages key)"

definition stored_message :: "store \<Rightarrow> string \<Rightarrow> string \<Rightarrow> string option" where
  "stored_message t locale key =
     (case map_of t locale of Some (Plain messages) \<Rightarrow> map_of messages key | _ \<Rightarrow> None)"

text \<open>A result none of whose locales is named like a member of \<^verbatim>\<open>Object.prototype\<close>.\<close>

definition ordinary_locales :: "Translations \<Rightarrow> bool" where
  "ordinary_locales t = list_all (\<lambda>locale. locale \<notin> set prototype_members) (map fst t)"

text \<open>
  Plugins and configurations for the concrete cases below: loaders that resolve, one
  that rejects and one that throws when called; the name \<^verbatim>\<open>db\<close> is never
  registered.
\<close>

definition example_icu :: "unit formatter_factory" where
  "example_icu config = ()"

definition example_fs :: loader_factory where
  "example_fs config = Inr (Resolved [])"

definition loader_a :: loader_factory where
  "loader_a config =
     Inr (Resolved [(''en'', [(''welcome'', ''Hi'')]), (''fr'', [(''welcome'', ''Salut'')])])"

definition loader_b :: loader_factory where
  "loader_b config = Inr (Resolved [(''en'', [(''welcome'', ''Hello''), (''bye'', ''Bye'')])])"

definition loader_c :: loader_factory where
  "loader_c config = Inr (Resolved [(''es'', [(''thanks'', ''Gracias'')])])"

definition loader_rejecting :: loader_factory where
  "loader_rejecting config = Inr (Rejected (LoaderFailure ''unreadable''))"

definition loader_throwing :: loader_factory where
  "loader_throwing config = Inl (LoaderFailure ''boom'')"

definition loader_constructor :: loader_factory where
  "loader_constructor config =
     Inr (Resolved [(''en'', [(''welcome'', ''Hi'')]), (''constructor'', [(''name'', ''x'')])])"

definition loader_dunder :: loader_factory where
  "loader_dunder config =
     Inr (Resolved [(''en'', [(''__proto__'', ''x''), (''welcome'', ''Hi'')])])"

definition on :: loader_options where
  "on = \<lparr>enabled = True\<rparr>"

definition off :: loader_options where
  "off = \<lparr>enabled = False\<rparr>"

definition config_with ::
  "string list option \<Rightarrow> string object option \<Rightarrow> loader_options object \<Rightarrow> i18n_config" where
  "config_with supported fallbacks sources =
     \<lparr> config_defaultLocale = ''en'',
       config_supportedLocales = supported,
       config_fallbackLocales = fallbacks,
       config_loaders = sources,
       config_translationsFormat = ''icu'',
       config_fallback = None \<rparr>"

definition with_loader :: "string \<Rightarrow> loader_factory \<Rightarrow> 'f i18n_manager \<Rightarrow> 'f i18n_manager" where
  "with_loader name callback m = fst (snd (extend name (Loader callback) m))"

definition manager_with :: "i18n_config \<Rightarrow> unit i18n_manager" where
  "manager_with config =
     with_loader ''1'' loader_a
       (with_loader ''dunder'' loader_dunder
       (with_loader ''named'' loader_constructor
          (with_loader ''throwing'' loader_throwing
             (with_loader ''rejecting'' loader_rejecting
                (with_loader ''c'' loader_c
                   (with_loader ''b'' loader_b
                      (with_loader ''a'' loader_a
                         (I18nManager example_icu example_fs config))))))))"

definition three_sources :: "unit i18n_manager" where
  "three_sources =
     manager_with (config_with None (Some [(''fr-CA'', ''fr'')])
       [(''a'', on), (''fs'', off), (''b'', on), (''c'', on)])"

text \<open>A manager that has loaded once and whose loader \<^verbatim>\<open>c\<close> was then replaced by
  one that rejects; configurations whose second loader is not registered; one with
  every loader disabled.\<close>

definition after_load :: "unit i18n_manager" where
  "after_load = with_loader ''c'' loader_rejecting (fst (snd (reloadTranslations three_sources)))"

definition throwing_first :: "unit i18n_manager" where
  "throwing_first = manager_with (config_with None None [(''throwing'', on), (''db'', on)])"

definition resolving_first :: "unit i18n_manager" where
  "resolving_first =
     manager_with (config_with None None [(''a'', on), (''fs'', off), (''db'', on), (''b'', on)])"

definition none_enabled :: "unit i18n_manager" where
  "none_enabled =
     manager_with (config_with None (Some [(''fr-CA'', ''fr''), (''pt-BR'', ''pt'')])
       [(''a'', off), (''db'', off)])"

text \<open>Configurations with an explicit list of supported locales, with a fallback that
  is the empty string, with no fallbacks, and with the default locale among the keys
  of the fallbacks.\<close>

definition explicit_locales :: "unit i18n_manager" where
  "explicit_locales =
     manager_with (config_with (Some [''en'', ''fr'']) (Some [(''fr-CA'', ''fr'')])
       [(''a'', on), (''c'', on)])"

definition empty_fallback :: "unit i18n_manager" where
  "empty_fallback =
     manager_with (config_with None (Some [(''fr-CA'', ''''), (''pt-BR'', ''pt'')]) [])"

definition no_fallbacks :: "unit i18n_manager" where
  "no_fallbacks = manager_with (config_with None None [])"

definition default_among_fallbacks :: "unit i18n_manager" where
  "default_among_fallbacks =
     manager_with (config_with None (Some [(''en'', ''es''), (''ca'', ''es'')]) [(''a'', on)])"

text \<open>Loaders declared as \<^verbatim>\<open>{b: ..., 1: ...}\<close>, a loader whose result has a key
  \<^verbatim>\<open>__proto__\<close>, a loader named \<^verbatim>\<open>toString\<close> that is not
  registered, and a loader whose result has a locale \<^verbatim>\<open>constructor\<close> with a key
  \<^verbatim>\<open>name\<close>.\<close>

definition index_named :: "unit i18n_manager" where
  "index_named = manager_with (config_with None None [(''b'', on), (''1'', on)])"

definition dunder_key :: "unit i18n_manager" where
  "dunder_key = manager_with (config_with None None [(''dunder'', on)])"

definition member_named :: "unit i18n_manager" where
  "member_named = manager_with (config_with None None [(''toString'', on)])"

definition locale_named_constructor :: "unit i18n_manager" where
  "locale_named_constructor = manager_with (config_with None None [(''named'', on)])"

text \<open>Configurations whose format has no registered formatter, a manager whose
  formatters are strings so that two instances can be told apart, and sequences of
  calls.\<close>

definition yaml_format :: "unit i18n_manager" where
  "yaml_format =
     manager_with ((config_with None None [(''a'', on)])\<lparr>config_translationsFormat := ''yaml''\<rparr>)"

definition toString_format :: "unit i18n_manager" where
  "toString_format =
     manager_with ((config_with None None [(''a'', on)])\<lparr>config_translationsFormat := ''toString''\<rparr>)"

definition lifetime :: "unit command list" where
  "lifetime =
     [GetFormatter, LoadTranslations, Extend ''icu'' (Formatter example_icu), GetFormatter,
      ReloadTranslations, LoadTranslations, GetFormatter]"

definition icu_first :: "string formatter_factory" where
  "icu_first config = ''first''"

definition icu_second :: "string formatter_factory" where
  "icu_second config = ''second''"

definition formatter_demo :: "string i18n_manager" where
  "formatter_demo = I18nManager icu_first example_fs (config_with None None [])"

definition replace_formatter :: "string command list" where
  "replace_formatter =
     [Extend ''icu'' (Formatter icu_second), ReloadTranslations, GetFormatter, LoadTranslations]"

section \<open>Properties\<close>

subsection \<open>Reading a registry\<close>

lemma registry_get_Own [simp]: "registry_get r k = Own f \<longleftrightarrow> r k = Some f"
  by (simp add: registry_get_def split: option.splits)

lemma registry_get_Some [simp]: "r k = Some f \<Longrightarrow> registry_get r k = Own f"
  by simp

lemma registry_get_Absent:
  "registry_get r k = Absent \<longleftrightarrow> r k = None \<and> k \<notin> set prototype_members"
  by (simp add: registry_get_def split: option.splits)

lemma registry_get_Inherited:
  "registry_get r k = Inherited k' \<longleftrightarrow> r k = None \<and> k \<in> set prototype_members \<and> k' = k"
  by (auto simp: registry_get_def split: option.splits)

subsection \<open>The loaders\<close>

lemma invoke_loaders_Inr:
  "invoke_loaders m names = (Inr ps, cs) \<Longrightarrow>
   list_all2 (\<lambda>n p. \<exists>f. priv_loaders m n = Some f \<and> f (priv_config m) = Inr p) names ps \<and>
   cs = map LoaderCall names"
  by (induction names arbitrary: ps cs)
     (auto split: property.splits sum.splits prod.splits)

lemma promise_all_Resolved: "promise_all ps = Resolved xs \<Longrightarrow> ps = map Resolved xs"
  by (induction ps arbitrary: xs rule: promise_all.induct) (auto split: promise.splits)

lemma invoke_loaders_calls:
  "\<exists>k. snd (invoke_loaders m names) = map LoaderCall (take k names)"
proof (induction names)
  case Nil
  show ?case by simp
next
  case (Cons n names)
  then obtain k where k: "snd (invoke_loaders m names) = map LoaderCall (take k names)" ..
  show ?case
  proof (cases "registry_get (priv_loaders m) n")
    case (Own f)
    show ?thesis
    proof (cases "f (priv_config m)")
      case (Inl e)
      with Own have "snd (invoke_loaders m (n # names)) = map LoaderCall (take 1 (n # names))"
        by simp
      then show ?thesis ..
    next
      case (Inr p)
      with Own k have "snd (invoke_loaders m (n # names)) = map LoaderCall (take (Suc k) (n # names))"
        by (auto split: prod.splits sum.splits)
      then show ?thesis ..
    qed
  next
    case (Inherited member)
    then have "snd (invoke_loaders m (n # names)) = map LoaderCall (take 0 (n # names))" by simp
    then show ?thesis ..
  next
    case Absent
    then have "snd (invoke_loaders m (n # names)) = map LoaderCall (take 0 (n # names))" by simp
    then show ?thesis ..
  qed
qed

lemma invoke_loaders_unregistered:
  "n \<in> set names \<Longrightarrow> priv_loaders m n = None \<Longrightarrow> \<exists>e. fst (invoke_loaders m names) = Inl e"
  by (induction names)
     (auto simp: registry_get_def split: property.splits option.splits sum.splits prod.splits)

lemma invoke_loaders_throws:
  "n \<in> set names \<Longrightarrow> priv_loaders m n = Some f \<Longrightarrow> f (priv_config m) = Inl e \<Longrightarrow>
   \<exists>e'. fst (invoke_loaders m names) = Inl e'"
  by (induction names)
     (auto simp: registry_get_def split: property.splits option.splits sum.splits prod.splits)

lemma invoke_loaders_first_unregistered:
  "\<forall>p\<in>set pre. \<exists>f pr. priv_loaders m p = Some f \<and> f (priv_config m) = Inr pr \<Longrightarrow>
   priv_loaders m n = None \<Longrightarrow>
   invoke_loaders m (pre @ n # post) =
     (if n \<in> set prototype_members then Inl TypeError
      else Inl (RuntimeException (''Invalid i18n loader '' @ quoted n)),
      map LoaderCall pre)"
  by (induction pre) (auto simp: registry_get_def)

lemma invoke_loaders_rejected:
  assumes "n \<in> set names" "priv_loaders m n = Some f" "f (priv_config m) = Inr (Rejected e)"
    and "invoke_loaders m names = (Inr ps, cs)"
  shows "\<exists>e'. promise_all ps = Rejected e'"
proof (cases "promise_all ps")
  case (Resolved xs)
  from invoke_loaders_Inr [OF assms(4)]
  have rel: "list_all2 (\<lambda>n p. \<exists>f. priv_loaders m n = Some f \<and> f (priv_config m) = Inr p) names ps"
    by simp
  from assms(1) obtain i where i: "i < length names" "names ! i = n"
    by (auto simp: in_set_conv_nth)
  with rel assms(2,3) have "ps ! i = Rejected e" "i < length ps"
    by (auto simp: list_all2_conv_all_nth)
  with promise_all_Resolved [OF Resolved] show ?thesis by auto
next
  case (Rejected e')
  then show ?thesis by blast
qed

text \<open>The two stages of a reload: the loaders, then the merge.\<close>

lemma reloadTranslations_stages:
  obtains (loading) e cs where "reloadTranslations m = (Inl e, m, cs)"
      "\<nexists>ps. fst (invoke_loaders m (enabled_loaders (priv_config m))) = Inr ps \<and>
            (\<exists>stack. promise_all ps = Resolved stack)"
  | (merging) stack where
      "list_all2 (\<lambda>n t. \<exists>f. priv_loaders m n = Some f \<and> f (priv_config m) = Inr (Resolved t))
         (enabled_loaders (priv_config m)) stack"
      "reloadTranslations m =
         (fst (merge_stack stack (reset_for_reload m)), snd (merge_stack stack (reset_for_reload m)),
          map LoaderCall (enabled_loaders (priv_config m)))"
proof -
  obtain r cs where inv: "invoke_loaders m (enabled_loaders (priv_config m)) = (r, cs)"
    by (cases "invoke_loaders m (enabled_loaders (priv_config m))")
  show ?thesis
  proof (cases r)
    case (Inl e)
    with inv show ?thesis by (intro loading [of e cs]) (simp_all add: reloadTranslations_def)
  next
    case (Inr ps)
    show ?thesis
    proof (cases "promise_all ps")
      case (Rejected e)
      with inv Inr show ?thesis by (intro loading [of e cs]) (simp_all add: reloadTranslations_def)
    next
      case (Resolved stack)
      from invoke_loaders_Inr [OF inv [unfolded Inr]] promise_all_Resolved [OF Resolved]
      have "list_all2 (\<lambda>n t. \<exists>f. priv_loaders m n = Some f \<and> f (priv_config m) = Inr (Resolved t))
              (enabled_loaders (priv_config m)) stack"
        and "cs = map LoaderCall (enabled_loaders (priv_config m))"
        by (simp_all add: list_all2_map2)
      moreover have "reloadTranslations m =
         (fst (merge_stack stack (reset_for_reload m)), snd (merge_stack stack (reset_for_reload m)), cs)"
        using inv Inr Resolved by (simp add: reloadTranslations_def split: prod.splits)
      ultimately show ?thesis by (intro merging [of stack]) simp_all
    qed
  qed
qed

lemma reload_fails_if_loader_fails:
  assumes "name \<in> set (enabled_loaders (priv_config m))"
    and "priv_loaders m name = None \<or>
         (\<exists>f e. priv_loaders m name = Some f \<and>
                 (f (priv_config m) = Inl e \<or> f (priv_config m) = Inr (Rejected e)))"
  shows "\<exists>e' cs. reloadTranslations m = (Inl e', m, cs)"
proof -
  obtain r cs where inv: "invoke_loaders m (enabled_loaders (priv_config m)) = (r, cs)"
    by (cases "invoke_loaders m (enabled_loaders (priv_config m))")
  show ?thesis
  proof (cases r)
    case (Inl e)
    with inv show ?thesis by (simp add: reloadTranslations_def)
  next
    case (Inr ps)
    with assms inv invoke_loaders_unregistered [OF assms(1), of m]
      invoke_loaders_throws [OF assms(1), of m]
    obtain f e where "priv_loaders m name = Some f" "f (priv_config m) = Inr (Rejected e)"
      by fastforce
    from invoke_loaders_rejected [OF assms(1) this inv [unfolded Inr]]
    obtain e' where "promise_all ps = Rejected e'" ..
    with inv Inr show ?thesis by (simp add: reloadTranslations_def)
  qed
qed

subsection \<open>The fields a method leaves alone\<close>

lemma merge_lang_fields [simp]:
  "priv_config (snd (merge_lang tr lang m)) = priv_config m"
  "priv_formatters (snd (merge_lang tr lang m)) = priv_formatters m"
  "priv_formatter (snd (merge_lang tr lang m)) = priv_formatter m"
  "priv_loaders (snd (merge_lang tr lang m)) = priv_loaders m"
  "priv_hasCachedTranslations (snd (merge_lang tr lang m)) = priv_hasCachedTranslations m"
  by (simp_all add: merge_lang_def Let_def split: property.splits slot.splits)

lemma merge_langs_step:
  "snd (merge_langs tr (l # ls) m) =
     (case fst (merge_lang tr l m) of
        Inl e \<Rightarrow> snd (merge_lang tr l m)
      | Inr u \<Rightarrow> snd (merge_langs tr ls (snd (merge_lang tr l m))))"
  by (simp split: prod.splits sum.splits)

lemma merge_langs_fields [simp]:
  "priv_config (snd (merge_langs tr ls m)) = priv_config m"
  "priv_formatters (snd (merge_langs tr ls m)) = priv_formatters m"
  "priv_formatter (snd (merge_langs tr ls m)) = priv_formatter m"
  "priv_loaders (snd (merge_langs tr ls m)) = priv_loaders m"
  "priv_hasCachedTranslations (snd (merge_langs tr ls m)) = priv_hasCachedTranslations m"
  by (induction ls arbitrary: m; simp add: merge_langs_step split: sum.splits del: merge_langs.simps(2))+

lemma merge_stack_step:
  "snd (merge_stack (tr # stack) m) =
     (case fst (merge_translations tr m) of
        Inl e \<Rightarrow> snd (merge_translations tr m)
      | Inr u \<Rightarrow> snd (merge_stack stack (snd (merge_translations tr m))))"
  by (simp split: prod.splits sum.splits)

lemma merge_stack_fields [simp]:
  "priv_config (snd (merge_stack stack m)) = priv_config m"
  "priv_formatters (snd (merge_stack stack m)) = priv_formatters m"
  "priv_formatter (snd (merge_stack stack m)) = priv_formatter m"
  "priv_loaders (snd (merge_stack stack m)) = priv_loaders m"
  "priv_hasCachedTranslations (snd (merge_stack stack m)) = priv_hasCachedTranslations m"
  by (induction stack arbitrary: m;
      simp add: merge_stack_step merge_translations_def split: sum.splits del: merge_stack.simps(2))+

lemma reset_for_reload_fields [simp]:
  "priv_config (reset_for_reload m) = priv_config m"
  "priv_formatters (reset_for_reload m) = priv_formatters m"
  "priv_formatter (reset_for_reload m) = priv_formatter m"
  "priv_loaders (reset_for_reload m) = priv_loaders m"
  "priv_hasCachedTranslations (reset_for_reload m)"
  "priv_translations (reset_for_reload m) = []"
  "priv_inferredLocales (reset_for_reload m) =
     defaultLocale m # (case config_fallbackLocales (priv_config m) of
                          Some fallbackLocales \<Rightarrow> object_keys fallbackLocales | None \<Rightarrow> [])"
  by (simp_all add: reset_for_reload_def Let_def defaultLocale_def)

lemma reloadTranslations_fields [simp]:
  "priv_config (fst (snd (reloadTranslations m))) = priv_config m"
  "priv_formatters (fst (snd (reloadTranslations m))) = priv_formatters m"
  "priv_formatter (fst (snd (reloadTranslations m))) = priv_formatter m"
  "priv_loaders (fst (snd (reloadTranslations m))) = priv_loaders m"
  by (cases m rule: reloadTranslations_stages; simp)+

lemma reloadTranslations_calls:
  "\<exists>k. snd (snd (reloadTranslations m)) = map LoaderCall (take k (enabled_loaders (priv_config m)))"
  using invoke_loaders_calls [of m "enabled_loaders (priv_config m)"]
  by (auto simp: reloadTranslations_def split: prod.splits sum.splits promise.splits)

lemma getFormatter_fields [simp]:
  "priv_config (fst (snd (getFormatter m))) = priv_config m"
  "priv_formatters (fst (snd (getFormatter m))) = priv_formatters m"
  "priv_loaders (fst (snd (getFormatter m))) = priv_loaders m"
  "priv_inferredLocales (fst (snd (getFormatter m))) = priv_inferredLocales m"
  "priv_translations (fst (snd (getFormatter m))) = priv_translations m"
  "priv_hasCachedTranslations (fst (snd (getFormatter m))) = priv_hasCachedTranslations m"
  by (simp_all add: getFormatter_def split: option.splits property.splits)

lemma extend_fields [simp]:
  "priv_config (fst (snd (extend name p m))) = priv_config m"
  "priv_formatter (fst (snd (extend name p m))) = priv_formatter m"
  "priv_inferredLocales (fst (snd (extend name p m))) = priv_inferredLocales m"
  "priv_translations (fst (snd (extend name p m))) = priv_translations m"
  "priv_hasCachedTranslations (fst (snd (extend name p m))) = priv_hasCachedTranslations m"
  by (cases p; simp)+

lemma loadTranslations_fields [simp]:
  "priv_config (fst (snd (loadTranslations m))) = priv_config m"
  "priv_formatters (fst (snd (loadTranslations m))) = priv_formatters m"
  "priv_formatter (fst (snd (loadTranslations m))) = priv_formatter m"
  "priv_loaders (fst (snd (loadTranslations m))) = priv_loaders m"
  by (simp_all add: loadTranslations_def)

lemma exec_state:
  "fst (snd (exec GetFormatter m)) = fst (snd (getFormatter m))"
  "fst (snd (exec LoadTranslations m)) = fst (snd (loadTranslations m))"
  "fst (snd (exec ReloadTranslations m)) = fst (snd (reloadTranslations m))"
  "fst (snd (exec (Extend name p) m)) = fst (snd (extend name p m))"
  by (simp_all split: prod.splits)

lemma exec_calls:
  "snd (snd (exec GetFormatter m)) = snd (snd (getFormatter m))"
  "snd (snd (exec LoadTranslations m)) = snd (snd (loadTranslations m))"
  "snd (snd (exec ReloadTranslations m)) = snd (snd (reloadTranslations m))"
  "snd (snd (exec (Extend name p) m)) = []"
  by (simp_all split: prod.splits, cases p, simp_all)

lemma exec_result:
  "fst (exec GetFormatter m) = map_sum id Some (fst (getFormatter m))"
  "fst (exec LoadTranslations m) = map_sum id (\<lambda>_. None) (fst (loadTranslations m))"
  "fst (exec ReloadTranslations m) = map_sum id (\<lambda>_. None) (fst (reloadTranslations m))"
  "fst (exec (Extend name p) m) = map_sum id (\<lambda>_. None) (fst (extend name p m))"
  by (simp_all split: prod.splits)

text \<open>A run is the first call followed by the run of the rest, unless the first call
  ends where the model does.\<close>

lemma run_Cons:
  "fst (run (c # cmds) m) =
     (if fst (exec c m) = Inl Unmodelled then fst (snd (exec c m))
      else fst (run cmds (fst (snd (exec c m)))))"
  "snd (run (c # cmds) m) =
     (if fst (exec c m) = Inl Unmodelled then snd (snd (exec c m))
      else snd (snd (exec c m)) @ snd (run cmds (fst (snd (exec c m)))))"
  by (auto split: prod.splits sum.splits error.splits)

declare exec.simps [simp del]

declare run.simps(2) [simp del]

lemma exec_config [simp]: "priv_config (fst (snd (exec c m))) = priv_config m"
  by (cases c) (simp_all add: exec_state)

lemma run_config [simp]: "priv_config (fst (run cmds m)) = priv_config m"
  by (induction cmds arbitrary: m) (simp_all add: run_Cons)

lemma with_loader_fields [simp]:
  "priv_config (with_loader name f m) = priv_config m"
  "priv_formatter (with_loader name f m) = priv_formatter m"
  "priv_formatters (with_loader name f m) = priv_formatters m"
  "priv_inferredLocales (with_loader name f m) = priv_inferredLocales m"
  "priv_translations (with_loader name f m) = priv_translations m"
  "priv_hasCachedTranslations (with_loader name f m) = priv_hasCachedTranslations m"
  "name \<noteq> ''__proto__'' \<Longrightarrow> priv_loaders (with_loader name f m) = (priv_loaders m)(name \<mapsto> f)"
  by (simp_all add: with_loader_def)

lemma manager_with_fields [simp]:
  "priv_config (manager_with config) = config"
  "priv_formatter (manager_with config) = None"
  "priv_formatters (manager_with config) = [''icu'' \<mapsto> example_icu]"
  "priv_loaders (manager_with config) ''a'' = Some loader_a"
  "priv_loaders (manager_with config) ''b'' = Some loader_b"
  "priv_loaders (manager_with config) ''c'' = Some loader_c"
  "priv_loaders (manager_with config) ''rejecting'' = Some loader_rejecting"
  "priv_loaders (manager_with config) ''throwing'' = Some loader_throwing"
  "priv_loaders (manager_with config) ''db'' = None"
  "priv_loaders (manager_with config) ''toString'' = None"
  "priv_loaders (manager_with config) ''1'' = Some loader_a"
  "priv_loaders (manager_with config) ''named'' = Some loader_constructor"
  "priv_loaders (manager_with config) ''dunder'' = Some loader_dunder"
  by (simp_all add: manager_with_def I18nManager_def)

subsection \<open>Objects and the merge\<close>

lemma map_of_object_set:
  "map_of (object_set obj k v) k' = (if k' = k then Some v else map_of obj k')"
  by (induction obj) auto

lemma set_object_keys [simp]: "set (object_keys obj) = fst ` set obj"
  by (auto simp: object_keys_def)

lemma object_keys_map_of: "k \<in> set (object_keys obj) \<longleftrightarrow> map_of obj k \<noteq> None"
  by (simp add: map_of_eq_None_iff)

text \<open>With no key that is an array index the keys come in the order of declaration.\<close>

lemma object_keys_declared:
  assumes "\<forall>k\<in>set (map fst obj). \<not> is_array_index k"
  shows "object_keys obj = map fst obj"
proof -
  from assms have "filter is_array_index (map fst obj) = []"
    by (simp add: filter_empty_conv)
  moreover from assms have "filter (\<lambda>k. \<not> is_array_index k) (map fst obj) = map fst obj"
    by (simp add: filter_id_conv)
  ultimately show ?thesis by (simp add: object_keys_def)
qed

lemma map_of_assign_keys:
  "k' \<noteq> ''__proto__'' \<Longrightarrow>
   map_of (fold (\<lambda>k t. case map_of source k of
                          None \<Rightarrow> t
                        | Some v \<Rightarrow> if k = ''__proto__'' \<and> map_of t k = None then t
                                    else object_set t k v) ks target) k' =
     (if k' \<in> set ks \<and> map_of source k' \<noteq> None then map_of source k' else map_of target k')"
  by (induction ks arbitrary: target) (auto simp: map_of_object_set split: option.splits)

lemma map_of_object_assign:
  assumes "k \<noteq> ''__proto__''"
  shows "map_of (object_assign target source) k =
     (case map_of source k of Some v \<Rightarrow> Some v | None \<Rightarrow> map_of target k)"
proof (cases "map_of source k")
  case None
  then show ?thesis
    unfolding object_assign_def by (simp add: map_of_assign_keys [OF assms])
next
  case (Some v)
  then have "k \<in> set (object_keys source)"
    by (simp add: object_keys_map_of del: set_object_keys)
  with Some show ?thesis
    unfolding object_assign_def by (simp add: map_of_assign_keys [OF assms] del: set_object_keys)
qed

lemma object_get_Own: "object_get obj k = Own v \<longleftrightarrow> map_of obj k = Some v"
  by (simp add: object_get_def split: option.splits)

lemma object_get_Absent:
  "object_get obj k = Absent \<longleftrightarrow> map_of obj k = None \<and> k \<notin> set prototype_members"
  by (simp add: object_get_def split: option.splits)

lemma object_get_Inherited:
  "object_get obj k = Inherited k' \<longleftrightarrow> map_of obj k = None \<and> k \<in> set prototype_members \<and> k' = k"
  by (auto simp: object_get_def split: option.splits)

lemma assign_to_member_Inr:
  "assign_to_member member source = Inr () \<Longrightarrow> k \<noteq> ''__proto__'' \<Longrightarrow> map_of source k = None"
proof -
  assume ok: "assign_to_member member source = Inr ()" and k: "k \<noteq> ''__proto__''"
  then have "filter (\<lambda>key. key \<noteq> ''__proto__'') (object_keys source) = []"
    by (auto simp: assign_to_member_def split: list.splits if_splits)
  with k have "k \<notin> set (object_keys source)"
    by (auto simp: filter_empty_conv)
  then show ?thesis by (simp add: object_keys_map_of del: set_object_keys)
qed

lemma merge_lang_result:
  "fst (merge_lang tr lang m) =
     (case object_get (priv_translations m) lang of
        Absent \<Rightarrow> Inr ()
      | Own (Plain target) \<Rightarrow> Inr ()
      | Own (Member member) \<Rightarrow>
          assign_to_member member (case map_of tr lang of Some messages \<Rightarrow> messages | None \<Rightarrow> [])
      | Inherited member \<Rightarrow>
          assign_to_member member (case map_of tr lang of Some messages \<Rightarrow> messages | None \<Rightarrow> []))"
  by (simp add: merge_lang_def Let_def split: property.splits slot.splits)

lemma merge_lang_store:
  "priv_translations (snd (merge_lang tr lang m)) =
     (case object_get (priv_translations m) lang of
        Absent \<Rightarrow>
          object_set (priv_translations m) lang
            (Plain (object_assign []
               (case map_of tr lang of Some messages \<Rightarrow> messages | None \<Rightarrow> [])))
      | Own (Plain target) \<Rightarrow>
          object_set (priv_translations m) lang
            (Plain (object_assign target
               (case map_of tr lang of Some messages \<Rightarrow> messages | None \<Rightarrow> [])))
      | Own (Member member) \<Rightarrow> priv_translations m
      | Inherited member \<Rightarrow>
          if member = ''__proto__'' then priv_translations m
          else object_set (priv_translations m) lang (Member member))"
  by (simp add: merge_lang_def Let_def split: property.splits slot.splits)

lemma merge_lang_inferred:
  "priv_inferredLocales (snd (merge_lang tr lang m)) =
     (if lang \<in> set (priv_inferredLocales m) then priv_inferredLocales m
      else priv_inferredLocales m @ [lang])"
  by (simp add: merge_lang_def Let_def split: property.splits slot.splits)

lemma stored_message_merge_lang:
  assumes "fst (merge_lang tr lang m) = Inr ()" "l \<notin> set prototype_members" "k \<noteq> ''__proto__''"
  shows "stored_message (priv_translations (snd (merge_lang tr lang m))) l k =
     (if l = lang then (case message_of tr l k of Some v \<Rightarrow> Some v
                        | None \<Rightarrow> stored_message (priv_translations m) l k)
      else stored_message (priv_translations m) l k)"
proof (cases "object_get (priv_translations m) lang")
  case Absent
  then have "map_of (priv_translations m) lang = None"
    by (simp add: object_get_Absent)
  with Absent show ?thesis
    by (simp add: merge_lang_store stored_message_def message_of_def map_of_object_set
          map_of_object_assign [OF assms(3)] split: option.splits)
next
  case (Inherited member)
  then have "lang \<in> set prototype_members" by (simp add: object_get_Inherited)
  with assms(2) have "l \<noteq> lang" by auto
  with Inherited show ?thesis
    by (simp add: merge_lang_store stored_message_def map_of_object_set)
next
  case (Own found)
  then have own: "map_of (priv_translations m) lang = Some found"
    by (simp add: object_get_Own)
  show ?thesis
  proof (cases found)
    case (Plain target)
    with Own own show ?thesis
      by (simp add: merge_lang_store stored_message_def message_of_def map_of_object_set
            map_of_object_assign [OF assms(3)] split: option.splits)
  next
    case (Member member)
    with Own assms(1) have ok: "assign_to_member member
        (case map_of tr lang of Some messages \<Rightarrow> messages | None \<Rightarrow> []) = Inr ()"
      by (simp add: merge_lang_result)
    from assign_to_member_Inr [OF ok assms(3)] have "message_of tr lang k = None"
      by (simp add: message_of_def split: option.splits)
    with Own Member show ?thesis
      by (simp add: merge_lang_store)
  qed
qed

lemma merge_langs_Inr:
  "fst (merge_langs tr (l # ls) m) = Inr () \<longleftrightarrow>
   fst (merge_lang tr l m) = Inr () \<and> fst (merge_langs tr ls (snd (merge_lang tr l m))) = Inr ()"
  by (auto split: prod.splits sum.splits)

lemma stored_message_merge_langs:
  assumes "fst (merge_langs tr ls m) = Inr ()" "l \<notin> set prototype_members" "k \<noteq> ''__proto__''"
  shows "stored_message (priv_translations (snd (merge_langs tr ls m))) l k =
     (if l \<in> set ls then (case message_of tr l k of Some v \<Rightarrow> Some v
                         | None \<Rightarrow> stored_message (priv_translations m) l k)
      else stored_message (priv_translations m) l k)"
  using assms(1)
proof (induction ls arbitrary: m)
  case Nil
  show ?case by simp
next
  case (Cons a ls)
  from Cons.prems have first: "fst (merge_lang tr a m) = Inr ()"
    and rest: "fst (merge_langs tr ls (snd (merge_lang tr a m))) = Inr ()"
    by (simp_all add: merge_langs_Inr del: merge_langs.simps)
  from first have step: "snd (merge_langs tr (a # ls) m) = snd (merge_langs tr ls (snd (merge_lang tr a m)))"
    by (simp add: merge_langs_step del: merge_langs.simps)
  show ?case
    unfolding step Cons.IH [OF rest] stored_message_merge_lang [OF first assms(2,3)]
    by (simp split: option.splits)
qed

lemma message_of_absent: "l \<notin> fst ` set tr \<Longrightarrow> message_of tr l k = None"
  using map_of_eq_None_iff [of tr l] by (simp add: message_of_def)

lemma stored_message_merge_translations:
  assumes "fst (merge_translations tr m) = Inr ()" "l \<notin> set prototype_members" "k \<noteq> ''__proto__''"
  shows "stored_message (priv_translations (snd (merge_translations tr m))) l k =
     (case message_of tr l k of Some v \<Rightarrow> Some v
      | None \<Rightarrow> stored_message (priv_translations m) l k)"
  using stored_message_merge_langs [OF assms [unfolded merge_translations_def]]
  by (auto simp: merge_translations_def message_of_absent split: option.splits)

lemma merge_stack_Inr:
  "fst (merge_stack (tr # stack) m) = Inr () \<longleftrightarrow>
   fst (merge_translations tr m) = Inr () \<and>
   fst (merge_stack stack (snd (merge_translations tr m))) = Inr ()"
  by (auto split: prod.splits sum.splits)

lemma merge_stack_append:
  "fst (merge_stack (xs @ ys) m) = Inr () \<longleftrightarrow>
   fst (merge_stack xs m) = Inr () \<and> fst (merge_stack ys (snd (merge_stack xs m))) = Inr ()"
  "fst (merge_stack xs m) = Inr () \<Longrightarrow>
   snd (merge_stack (xs @ ys) m) = snd (merge_stack ys (snd (merge_stack xs m)))"
proof -
  show "fst (merge_stack (xs @ ys) m) = Inr () \<longleftrightarrow>
   fst (merge_stack xs m) = Inr () \<and> fst (merge_stack ys (snd (merge_stack xs m))) = Inr ()"
    by (induction xs arbitrary: m) (auto split: prod.splits sum.splits)
  show "fst (merge_stack xs m) = Inr () \<Longrightarrow>
   snd (merge_stack (xs @ ys) m) = snd (merge_stack ys (snd (merge_stack xs m)))"
    by (induction xs arbitrary: m) (auto split: prod.splits sum.splits)
qed

lemma stored_message_merge_none:
  assumes "l \<notin> set prototype_members" "k \<noteq> ''__proto__''"
  shows "fst (merge_stack stack m) = Inr () \<Longrightarrow> \<forall>u\<in>set stack. message_of u l k = None \<Longrightarrow>
   stored_message (priv_translations (snd (merge_stack stack m))) l k =
     stored_message (priv_translations m) l k"
proof (induction stack arbitrary: m)
  case Nil
  show ?case by simp
next
  case (Cons tr stack)
  from Cons.prems(1) have first: "fst (merge_translations tr m) = Inr ()"
    and rest: "fst (merge_stack stack (snd (merge_translations tr m))) = Inr ()"
    by (simp_all add: merge_stack_Inr del: merge_stack.simps)
  from first have step:
    "snd (merge_stack (tr # stack) m) = snd (merge_stack stack (snd (merge_translations tr m)))"
    by (simp add: merge_stack_step del: merge_stack.simps)
  from Cons.prems(2) show ?case
    unfolding step
    by (simp add: Cons.IH [OF rest] stored_message_merge_translations [OF first assms])
qed

lemma stored_message_merge_last:
  assumes ok: "fst (merge_stack (pre @ t # post) m) = Inr ()"
    and "l \<notin> set prototype_members" "k \<noteq> ''__proto__''"
    and v: "message_of t l k = Some v" and later: "\<forall>u\<in>set post. message_of u l k = None"
  shows "stored_message (priv_translations (snd (merge_stack (pre @ t # post) m))) l k = Some v"
proof -
  from ok have pre: "fst (merge_stack pre m) = Inr ()"
    and rest: "fst (merge_stack (t # post) (snd (merge_stack pre m))) = Inr ()"
    by (simp_all add: merge_stack_append(1) del: merge_stack.simps)
  let ?m1 = "snd (merge_stack pre m)"
  from rest have t: "fst (merge_translations t ?m1) = Inr ()"
    and post: "fst (merge_stack post (snd (merge_translations t ?m1))) = Inr ()"
    by (simp_all add: merge_stack_Inr del: merge_stack.simps)
  have "snd (merge_stack (pre @ t # post) m) = snd (merge_stack post (snd (merge_translations t ?m1)))"
    using pre t by (simp add: merge_stack_append(2) merge_stack_step del: merge_stack.simps)
  then show ?thesis
    using stored_message_merge_none [OF assms(2,3) post later]
      stored_message_merge_translations [OF t assms(2,3)] v
    by simp
qed

lemma getTranslationsFor_stored_message:
  "stored_message (priv_translations m) l k = Some v \<Longrightarrow>
   \<exists>messages. getTranslationsFor m l = Plain messages \<and> map_of messages k = Some v"
  by (auto simp: stored_message_def getTranslationsFor_def object_get_def
        split: option.splits slot.splits)

lemma merge_lang_priv_loaders:
  "merge_lang tr lang (m\<lparr>priv_loaders := r\<rparr>) =
     (fst (merge_lang tr lang m), (snd (merge_lang tr lang m))\<lparr>priv_loaders := r\<rparr>)"
  by (simp add: merge_lang_def Let_def split: property.splits slot.splits)

lemma merge_langs_priv_loaders:
  "merge_langs tr ls (m\<lparr>priv_loaders := r\<rparr>) =
     (fst (merge_langs tr ls m), (snd (merge_langs tr ls m))\<lparr>priv_loaders := r\<rparr>)"
  by (induction ls arbitrary: m) (simp_all add: merge_lang_priv_loaders split: prod.splits sum.splits)

lemma merge_stack_priv_loaders:
  "merge_stack stack (m\<lparr>priv_loaders := r\<rparr>) =
     (fst (merge_stack stack m), (snd (merge_stack stack m))\<lparr>priv_loaders := r\<rparr>)"
  by (induction stack arbitrary: m)
     (simp_all add: merge_translations_def merge_langs_priv_loaders split: prod.splits sum.splits)

lemma reset_for_reload_priv_loaders:
  "reset_for_reload (m\<lparr>priv_loaders := r\<rparr>) = (reset_for_reload m)\<lparr>priv_loaders := r\<rparr>"
  by (simp add: reset_for_reload_def Let_def defaultLocale_def)

lemma invoke_loaders_cong:
  "\<forall>n\<in>set names. r n = priv_loaders m n \<Longrightarrow>
   invoke_loaders (m\<lparr>priv_loaders := r\<rparr>) names = invoke_loaders m names"
  by (induction names) (auto simp: registry_get_def split: option.splits sum.splits prod.splits)

lemma reloadTranslations_other_loader:
  assumes "d \<notin> set (enabled_loaders (priv_config m))"
  shows "reloadTranslations (m\<lparr>priv_loaders := (priv_loaders m)(d := x)\<rparr>) =
         (case reloadTranslations m of
            (r, s, cs) \<Rightarrow> (r, s\<lparr>priv_loaders := (priv_loaders m)(d := x)\<rparr>, cs))"
proof -
  have "invoke_loaders (m\<lparr>priv_loaders := (priv_loaders m)(d := x)\<rparr>) (enabled_loaders (priv_config m))
          = invoke_loaders m (enabled_loaders (priv_config m))"
    using assms by (intro invoke_loaders_cong) auto
  then show ?thesis
    by (simp add: reloadTranslations_def merge_stack_priv_loaders reset_for_reload_priv_loaders
             split: prod.splits sum.splits promise.splits)
qed

lemma enabled_loaders_none:
  assumes "\<forall>(name, opts)\<in>set (config_loaders config). \<not> enabled opts"
  shows "enabled_loaders config = []"
proof -
  have "\<And>opts. map_of (config_loaders config) loader = Some opts \<Longrightarrow> \<not> enabled opts" for loader
    using assms by (auto dest: map_of_SomeD)
  then show ?thesis
    by (auto simp: enabled_loaders_def filter_empty_conv split: option.splits)
qed

subsection \<open>The flag and the formatter along a sequence of calls\<close>

lemma invoke_loaders_flag:
  "invoke_loaders (m\<lparr>priv_hasCachedTranslations := b\<rparr>) names = invoke_loaders m names"
  by (induction names) (auto split: property.splits sum.splits prod.splits)

lemma reset_for_reload_flag:
  "reset_for_reload (m\<lparr>priv_hasCachedTranslations := b\<rparr>) = reset_for_reload m"
  by (simp add: reset_for_reload_def Let_def defaultLocale_def)

lemma reloadTranslations_ignores_flag:
  "fst (reloadTranslations (m\<lparr>priv_hasCachedTranslations := b\<rparr>)) = fst (reloadTranslations m)"
  "snd (snd (reloadTranslations (m\<lparr>priv_hasCachedTranslations := b\<rparr>))) =
     snd (snd (reloadTranslations m))"
  "(fst (snd (reloadTranslations (m\<lparr>priv_hasCachedTranslations := b\<rparr>))))
      \<lparr>priv_hasCachedTranslations := c\<rparr> =
   (fst (snd (reloadTranslations m)))\<lparr>priv_hasCachedTranslations := c\<rparr>"
  by (simp_all add: reloadTranslations_def invoke_loaders_flag reset_for_reload_flag
        split: prod.splits sum.splits promise.splits)

lemma reloadTranslations_flag:
  "fst (reloadTranslations m) = Inr () \<Longrightarrow>
   priv_hasCachedTranslations (fst (snd (reloadTranslations m)))"
  by (cases m rule: reloadTranslations_stages) simp_all

lemma reloadTranslations_flag_mono:
  "priv_hasCachedTranslations m \<Longrightarrow> priv_hasCachedTranslations (fst (snd (reloadTranslations m)))"
  by (cases m rule: reloadTranslations_stages) simp_all

lemma reloadTranslations_flag_set:
  assumes "\<not> priv_hasCachedTranslations m"
    and "priv_hasCachedTranslations (fst (snd (reloadTranslations m)))"
  shows "\<forall>n\<in>set (enabled_loaders (priv_config m)).
           \<exists>f t. priv_loaders m n = Some f \<and> f (priv_config m) = Inr (Resolved t)"
proof (cases m rule: reloadTranslations_stages)
  case (loading e cs)
  with assms show ?thesis by simp
next
  case (merging stack)
  show ?thesis
  proof
    fix n assume "n \<in> set (enabled_loaders (priv_config m))"
    then obtain i where "i < length (enabled_loaders (priv_config m))"
      "enabled_loaders (priv_config m) ! i = n"
      by (auto simp: in_set_conv_nth)
    with merging(1) show "\<exists>f t. priv_loaders m n = Some f \<and> f (priv_config m) = Inr (Resolved t)"
      by (auto simp: list_all2_conv_all_nth)
  qed
qed

text \<open>A merge of locales that are not named like members of \<^verbatim>\<open>Object.prototype\<close>, into a
  store that holds none of these members, succeeds and leaves such a store.\<close>

lemma merge_lang_ordinary:
  assumes "lang \<notin> set prototype_members"
    and "\<forall>l member. map_of (priv_translations m) l \<noteq> Some (Member member)"
  shows "fst (merge_lang tr lang m) = Inr () \<and>
         (\<forall>l member. map_of (priv_translations (snd (merge_lang tr lang m))) l \<noteq> Some (Member member))"
proof (cases "object_get (priv_translations m) lang")
  case Absent
  with assms(2) show ?thesis
    by (simp add: merge_lang_result merge_lang_store map_of_object_set)
next
  case (Inherited member)
  with assms(1) show ?thesis by (simp add: object_get_Inherited)
next
  case (Own found)
  with assms(2) obtain target where "found = Plain target"
    by (cases found) (auto simp: object_get_Own)
  with Own assms(2) show ?thesis
    by (simp add: merge_lang_result merge_lang_store map_of_object_set)
qed

lemma merge_langs_ordinary:
  "\<forall>lang\<in>set ls. lang \<notin> set prototype_members \<Longrightarrow>
   \<forall>l member. map_of (priv_translations m) l \<noteq> Some (Member member) \<Longrightarrow>
   fst (merge_langs tr ls m) = Inr () \<and>
   (\<forall>l member. map_of (priv_translations (snd (merge_langs tr ls m))) l \<noteq> Some (Member member))"
proof (induction ls arbitrary: m)
  case Nil
  then show ?case by simp
next
  case (Cons a ls)
  from Cons.prems have a: "a \<notin> set prototype_members" by simp
  note first = merge_lang_ordinary [OF a Cons.prems(2), of tr]
  from Cons.prems(1) have "\<forall>lang\<in>set ls. lang \<notin> set prototype_members" by simp
  from Cons.IH [OF this, of "snd (merge_lang tr a m)"] first
  show ?case
    by (simp add: merge_langs_Inr merge_langs_step del: merge_langs.simps)
qed

lemma merge_stack_ordinary:
  "\<forall>tr\<in>set stack. ordinary_locales tr \<Longrightarrow>
   \<forall>l member. map_of (priv_translations m) l \<noteq> Some (Member member) \<Longrightarrow>
   fst (merge_stack stack m) = Inr ()"
proof (induction stack arbitrary: m)
  case Nil
  show ?case by simp
next
  case (Cons tr stack)
  from Cons.prems(1) have "\<forall>lang\<in>set (object_keys tr). lang \<notin> set prototype_members"
    by (auto simp: ordinary_locales_def list_all_iff)
  note first = merge_langs_ordinary [OF this Cons.prems(2), of tr, folded merge_translations_def]
  from Cons.prems(1) have "\<forall>tr\<in>set stack. ordinary_locales tr" by simp
  from Cons.IH [OF this, of "snd (merge_translations tr m)"] first
  show ?case
    by (simp add: merge_stack_Inr del: merge_stack.simps)
qed

lemma invoke_loaders_all:
  "\<forall>n\<in>set names. \<exists>f p. priv_loaders m n = Some f \<and> f (priv_config m) = Inr p \<Longrightarrow>
   \<exists>ps. fst (invoke_loaders m names) = Inr ps"
  by (induction names) (auto split: prod.splits sum.splits)

lemma promise_all_map_Resolved: "promise_all (map Resolved xs) = Resolved xs"
  by (induction xs) simp_all

lemma reloadTranslations_succeeds:
  assumes "\<forall>n\<in>set (enabled_loaders (priv_config m)).
             \<exists>f t. priv_loaders m n = Some f \<and> f (priv_config m) = Inr (Resolved t) \<and>
                   ordinary_locales t"
  shows "fst (reloadTranslations m) = Inr ()"
proof (cases m rule: reloadTranslations_stages)
  case (loading e cs)
  from assms have "\<forall>n\<in>set (enabled_loaders (priv_config m)).
      \<exists>f p. priv_loaders m n = Some f \<and> f (priv_config m) = Inr p"
    by blast
  from invoke_loaders_all [OF this] obtain ps where
    ps: "fst (invoke_loaders m (enabled_loaders (priv_config m))) = Inr ps" ..
  then obtain cs' where inv: "invoke_loaders m (enabled_loaders (priv_config m)) = (Inr ps, cs')"
    by (cases "invoke_loaders m (enabled_loaders (priv_config m))") simp
  have "\<forall>p\<in>set ps. \<exists>t. p = Resolved t"
  proof
    fix p assume "p \<in> set ps"
    then obtain i where i: "i < length ps" "ps ! i = p" by (auto simp: in_set_conv_nth)
    with invoke_loaders_Inr [OF inv] obtain f where
      f: "priv_loaders m (enabled_loaders (priv_config m) ! i) = Some f" "f (priv_config m) = Inr p"
      and n: "enabled_loaders (priv_config m) ! i \<in> set (enabled_loaders (priv_config m))"
      by (auto simp: list_all2_conv_all_nth)
    with assms show "\<exists>t. p = Resolved t" by fastforce
  qed
  then have "\<exists>stack. ps = map Resolved stack"
    by (induction ps) (auto simp: Cons_eq_map_conv)
  then obtain stack where "ps = map Resolved stack" ..
  then have "promise_all ps = Resolved stack" by (simp add: promise_all_map_Resolved)
  with ps loading(2) show ?thesis by blast
next
  case (merging stack)
  have "\<forall>tr\<in>set stack. ordinary_locales tr"
  proof
    fix tr assume "tr \<in> set stack"
    then obtain i where i: "i < length stack" "stack ! i = tr" by (auto simp: in_set_conv_nth)
    with merging(1) obtain f where
      f: "priv_loaders m (enabled_loaders (priv_config m) ! i) = Some f"
         "f (priv_config m) = Inr (Resolved tr)"
      and n: "enabled_loaders (priv_config m) ! i \<in> set (enabled_loaders (priv_config m))"
      by (auto simp: list_all2_conv_all_nth)
    with assms show "ordinary_locales tr" by fastforce
  qed
  from merge_stack_ordinary [OF this, of "reset_for_reload m"] merging(2)
  show ?thesis by simp
qed

lemma exec_flag_mono:
  "priv_hasCachedTranslations m \<Longrightarrow> priv_hasCachedTranslations (fst (snd (exec c m)))"
  by (cases c) (simp_all add: exec_state loadTranslations_def reloadTranslations_flag_mono)

lemma run_flag_mono:
  "priv_hasCachedTranslations m \<Longrightarrow> priv_hasCachedTranslations (fst (run cmds m))"
  by (induction cmds arbitrary: m) (simp_all add: run_Cons exec_flag_mono)

lemma exec_flag_set:
  assumes "\<not> priv_hasCachedTranslations m" "priv_hasCachedTranslations (fst (snd (exec c m)))"
  shows "(c = LoadTranslations \<or> c = ReloadTranslations) \<and>
         (\<forall>n\<in>set (enabled_loaders (priv_config m)).
            \<exists>f t. priv_loaders m n = Some f \<and> f (priv_config m) = Inr (Resolved t))"
proof (cases c)
  case GetFormatter
  with assms show ?thesis by (simp add: exec_state)
next
  case LoadTranslations
  with assms reloadTranslations_flag_set [of m] show ?thesis
    by (simp add: exec_state loadTranslations_def hasCachedTranslations_def)
next
  case ReloadTranslations
  with assms reloadTranslations_flag_set [of m] show ?thesis
    by (simp add: exec_state)
next
  case (Extend name p)
  with assms show ?thesis by (simp add: exec_state)
qed

lemma getFormatter_cached:
  "priv_formatter m = Some f \<Longrightarrow> getFormatter m = (Inr f, m, [])"
  by (simp add: getFormatter_def)

lemma getFormatter_Inr:
  assumes "fst (getFormatter m) = Inr f"
  shows "priv_formatter (fst (snd (getFormatter m))) = Some f"
proof (cases "priv_formatter m")
  case (Some g)
  with assms show ?thesis by (simp add: getFormatter_def)
next
  case None
  show ?thesis
  proof (cases "registry_get (priv_formatters m) (config_translationsFormat (priv_config m))")
    case (Own factory)
    with None assms show ?thesis
      by (simp add: getFormatter_def del: registry_get_Own)
  next
    case (Inherited member)
    with None assms show ?thesis
      by (simp add: getFormatter_def split: if_splits)
  next
    case Absent
    with None assms show ?thesis
      by (simp add: getFormatter_def)
  qed
qed

lemma no_formatter_call_in_reload:
  "filter is_FormatterCall (snd (snd (reloadTranslations m))) = []"
  using reloadTranslations_calls [of m] by (auto simp: filter_empty_conv)

lemma exec_formatter_kept:
  "priv_formatter m = Some f \<Longrightarrow>
   priv_formatter (fst (snd (exec c m))) = Some f \<and>
   filter is_FormatterCall (snd (snd (exec c m))) = []"
  by (cases c)
     (simp_all add: exec_state exec_calls getFormatter_cached loadTranslations_def
        no_formatter_call_in_reload)

lemma run_formatter_kept:
  "priv_formatter m = Some f \<Longrightarrow>
   priv_formatter (fst (run cmds m)) = Some f \<and> filter is_FormatterCall (snd (run cmds m)) = []"
  by (induction cmds arbitrary: m) (simp_all add: run_Cons exec_formatter_kept)

lemma exec_formatter_once:
  "priv_formatter m = None \<Longrightarrow>
   filter is_FormatterCall (snd (snd (exec c m))) = [] \<or>
   length (filter is_FormatterCall (snd (snd (exec c m)))) = 1 \<and>
     priv_formatter (fst (snd (exec c m))) \<noteq> None"
  by (cases c)
     (auto simp: exec_state exec_calls getFormatter_def loadTranslations_def
        no_formatter_call_in_reload split: option.splits property.splits)

lemma run_formatter_once:
  "length (filter is_FormatterCall (snd (run cmds m))) \<le> 1"
proof (induction cmds arbitrary: m)
  case Nil
  show ?case by simp
next
  case (Cons c cmds)
  show ?case
  proof (cases "priv_formatter m")
    case (Some f)
    then show ?thesis using run_formatter_kept [of m f "c # cmds"] by simp
  next
    case None
    from exec_formatter_once [OF None, of c] show ?thesis
    proof
      assume "filter is_FormatterCall (snd (snd (exec c m))) = []"
      with Cons.IH [of "fst (snd (exec c m))"] show ?thesis
        by (simp add: run_Cons)
    next
      assume h: "length (filter is_FormatterCall (snd (snd (exec c m)))) = 1 \<and>
              priv_formatter (fst (snd (exec c m))) \<noteq> None"
      then obtain f where "priv_formatter (fst (snd (exec c m))) = Some f" by auto
      from run_formatter_kept [OF this, of cmds] h show ?thesis
        by (simp add: run_Cons)
    qed
  qed
qed

section \<open>Statements of the specification\<close>

subsection \<open>Merging\<close>

text \<open>
  C1, as stated, fails. The sources are merged in the order in which \<^verbatim>\<open>Object.keys\<close>
  enumerates the configured loaders, which is not the order of declaration when a
  loader name is an array index: with the loaders declared as \<^verbatim>\<open>{b: ..., 1: ...}\<close>
  the loader \<^verbatim>\<open>1\<close> is called and merged first and the value of \<^verbatim>\<open>b\<close>, declared
  first, is the one the store holds. A key \<^verbatim>\<open>__proto__\<close> of a source is not copied.
\<close>

theorem reload_last_source_wins_counterexample:
  "config_loaders (priv_config index_named) = [(''b'', on), (''1'', on)] \<and>
   enabled on \<and>
   priv_loaders index_named ''b'' = Some loader_b \<and>
   priv_loaders index_named ''1'' = Some loader_a \<and>
   loader_b (priv_config index_named)
     = Inr (Resolved [(''en'', [(''welcome'', ''Hello''), (''bye'', ''Bye'')])]) \<and>
   loader_a (priv_config index_named)
     = Inr (Resolved [(''en'', [(''welcome'', ''Hi'')]), (''fr'', [(''welcome'', ''Salut'')])]) \<and>
   message_of [(''en'', [(''welcome'', ''Hello''), (''bye'', ''Bye'')])] ''en'' ''welcome'' = Some ''Hello'' \<and>
   message_of [(''en'', [(''welcome'', ''Hi'')]), (''fr'', [(''welcome'', ''Salut'')])] ''en'' ''welcome''
     = Some ''Hi'' \<and>
   fst (reloadTranslations index_named) = Inr () \<and>
   snd (snd (reloadTranslations index_named)) = [LoaderCall ''1'', LoaderCall ''b''] \<and>
   getTranslationsFor (fst (snd (reloadTranslations index_named))) ''en''
     = Plain [(''welcome'', ''Hello''), (''bye'', ''Bye'')] \<and>
   enabled_loaders (priv_config dunder_key) = [''dunder''] \<and>
   priv_loaders dunder_key ''dunder'' = Some loader_dunder \<and>
   loader_dunder (priv_config dunder_key)
     = Inr (Resolved [(''en'', [(''__proto__'', ''x''), (''welcome'', ''Hi'')])]) \<and>
   message_of [(''en'', [(''__proto__'', ''x''), (''welcome'', ''Hi'')])] ''en'' ''__proto__'' = Some ''x'' \<and>
   fst (reloadTranslations dunder_key) = Inr () \<and>
   getTranslationsFor (fst (snd (reloadTranslations dunder_key))) ''en'' = Plain [(''welcome'', ''Hi'')]"
proof -
  have "config_loaders (priv_config index_named) = [(''b'', on), (''1'', on)]"
    by (simp add: index_named_def config_with_def)
  moreover have "enabled on"
    by (simp add: on_def)
  moreover have "priv_loaders index_named ''b'' = Some loader_b"
    and "priv_loaders index_named ''1'' = Some loader_a"
    by (simp_all add: index_named_def)
  moreover have "message_of [(''en'', [(''welcome'', ''Hello''), (''bye'', ''Bye'')])] ''en'' ''welcome''
      = Some ''Hello''"
    and "message_of [(''en'', [(''welcome'', ''Hi'')]), (''fr'', [(''welcome'', ''Salut'')])] ''en'' ''welcome''
      = Some ''Hi''"
    by (simp_all add: message_of_def)
  moreover have "loader_b (priv_config index_named)
     = Inr (Resolved [(''en'', [(''welcome'', ''Hello''), (''bye'', ''Bye'')])])"
    and "loader_a (priv_config index_named)
     = Inr (Resolved [(''en'', [(''welcome'', ''Hi'')]), (''fr'', [(''welcome'', ''Salut'')])])"
    and "loader_dunder (priv_config dunder_key)
     = Inr (Resolved [(''en'', [(''__proto__'', ''x''), (''welcome'', ''Hi'')])])"
    by (simp_all add: loader_a_def loader_b_def loader_dunder_def)
  moreover have "enabled_loaders (priv_config dunder_key) = [''dunder'']"
    by code_simp
  moreover have "priv_loaders dunder_key ''dunder'' = Some loader_dunder"
    by (simp add: dunder_key_def)
  moreover have
    "message_of [(''en'', [(''__proto__'', ''x''), (''welcome'', ''Hi'')])] ''en'' ''__proto__'' = Some ''x''"
    by (simp add: message_of_def)
  moreover have "fst (reloadTranslations index_named) = Inr ()"
    by code_simp
  moreover have "snd (snd (reloadTranslations index_named)) = [LoaderCall ''1'', LoaderCall ''b'']"
    by code_simp
  moreover have "getTranslationsFor (fst (snd (reloadTranslations index_named))) ''en''
     = Plain [(''welcome'', ''Hello''), (''bye'', ''Bye'')]"
    by code_simp
  moreover have "fst (reloadTranslations dunder_key) = Inr ()"
    by code_simp
  moreover have "getTranslationsFor (fst (snd (reloadTranslations dunder_key))) ''en''
     = Plain [(''welcome'', ''Hi'')]"
    by code_simp
  ultimately show ?thesis by simp
qed

text \<open>
  C1, amended. After a reload that succeeds without assigning to a member of
  \<^verbatim>\<open>Object.prototype\<close>, for a locale that is not named like such a member and a key
  other than \<^verbatim>\<open>__proto__\<close>, the store holds
  the value of the last enabled source, in the order of \<^verbatim>\<open>Object.keys\<close> on the
  configured loaders, whose result has that locale and key: the value a source \<open>a\<close>
  produced is what \<open>getTranslationsFor\<close> returns when no source after \<open>a\<close> produced
  one, whatever the sources before \<open>a\<close> produced. When no loader name is an array
  index that order is the order of declaration.
\<close>

theorem reload_last_source_wins:
  assumes ok: "fst (reloadTranslations m) = Inr ()"
    and order: "enabled_loaders (priv_config m) = pre @ a # post"
    and a: "priv_loaders m a = Some f" "f (priv_config m) = Inr (Resolved t)"
    and v: "message_of t l k = Some v"
    and names: "l \<notin> set prototype_members" "k \<noteq> ''__proto__''"
    and later: "\<forall>b\<in>set post. \<forall>g u. priv_loaders m b = Some g \<longrightarrow>
                  g (priv_config m) = Inr (Resolved u) \<longrightarrow> message_of u l k = None"
  shows "(\<exists>messages. getTranslationsFor (fst (snd (reloadTranslations m))) l = Plain messages \<and>
                     map_of messages k = Some v) \<and>
         ((\<forall>n\<in>set (map fst (config_loaders (priv_config m))). \<not> is_array_index n) \<longrightarrow>
            enabled_loaders (priv_config m) =
              filter (\<lambda>loader. case map_of (config_loaders (priv_config m)) loader of
                                  Some opts \<Rightarrow> enabled opts
                                | None \<Rightarrow> False)
                (map fst (config_loaders (priv_config m))))"
proof
  let ?P = "\<lambda>n t. \<exists>f. priv_loaders m n = Some f \<and> f (priv_config m) = Inr (Resolved t)"
  from ok obtain stack where
    rel: "list_all2 ?P (pre @ a # post) stack" and
    res: "reloadTranslations m =
         (fst (merge_stack stack (reset_for_reload m)), snd (merge_stack stack (reset_for_reload m)),
          map LoaderCall (enabled_loaders (priv_config m)))"
    unfolding order [symmetric] by (cases m rule: reloadTranslations_stages) auto
  from rel obtain s1 s2' where st: "stack = s1 @ s2'" and r2: "list_all2 ?P (a # post) s2'"
    by (auto simp: list_all2_append1)
  from r2 obtain t' s2 where s2': "s2' = t' # s2" and ta: "?P a t'" and r3: "list_all2 ?P post s2"
    by (auto simp: list_all2_Cons1)
  from ta a have t': "t' = t" by auto
  have none: "\<forall>u\<in>set s2. message_of u l k = None"
  proof
    fix u assume "u \<in> set s2"
    then obtain i where i: "i < length s2" "u = s2 ! i" by (auto simp: in_set_conv_nth)
    with r3 have "?P (post ! i) u" and "post ! i \<in> set post"
      by (auto simp: list_all2_conv_all_nth)
    with later show "message_of u l k = None" by blast
  qed
  from ok res have merged: "fst (merge_stack (s1 @ t # s2) (reset_for_reload m)) = Inr ()"
    by (simp add: st s2' t')
  from stored_message_merge_last [OF merged names v none] res
  have "stored_message (priv_translations (fst (snd (reloadTranslations m)))) l k = Some v"
    by (simp add: st s2' t')
  then show "\<exists>messages. getTranslationsFor (fst (snd (reloadTranslations m))) l = Plain messages \<and>
                     map_of messages k = Some v"
    by (rule getTranslationsFor_stored_message)
next
  show "(\<forall>n\<in>set (map fst (config_loaders (priv_config m))). \<not> is_array_index n) \<longrightarrow>
            enabled_loaders (priv_config m) =
              filter (\<lambda>loader. case map_of (config_loaders (priv_config m)) loader of
                                  Some opts \<Rightarrow> enabled opts
                                | None \<Rightarrow> False)
                (map fst (config_loaders (priv_config m)))"
    by (simp add: enabled_loaders_def object_keys_declared)
qed

theorem reload_last_source_wins_witness:
  "fst (reloadTranslations three_sources) = Inr () \<and>
   enabled_loaders (priv_config three_sources) = [''a''] @ ''b'' # [''c''] \<and>
   priv_loaders three_sources ''b'' = Some loader_b \<and>
   message_of [(''en'', [(''welcome'', ''Hello''), (''bye'', ''Bye'')])] ''en'' ''welcome'' = Some ''Hello'' \<and>
   message_of [(''en'', [(''welcome'', ''Hi'')]), (''fr'', [(''welcome'', ''Salut'')])] ''en'' ''welcome'' = Some ''Hi'' \<and>
   (\<exists>messages. getTranslationsFor (fst (snd (reloadTranslations three_sources))) ''en'' = Plain messages \<and>
               map_of messages ''welcome'' = Some ''Hello'') \<and>
   config_loaders (priv_config three_sources) = [(''a'', on), (''fs'', off), (''b'', on), (''c'', on)] \<and>
   enabled_loaders (priv_config three_sources) =
     filter (\<lambda>loader. case map_of (config_loaders (priv_config three_sources)) loader of
                         Some opts \<Rightarrow> enabled opts
                       | None \<Rightarrow> False)
       (map fst (config_loaders (priv_config three_sources)))"
proof -
  have ok: "fst (reloadTranslations three_sources) = Inr ()"
    by code_simp
  have order: "enabled_loaders (priv_config three_sources) = [''a''] @ ''b'' # [''c'']"
    by code_simp
  have b: "priv_loaders three_sources ''b'' = Some loader_b"
    by (simp add: three_sources_def)
  have t: "loader_b (priv_config three_sources)
             = Inr (Resolved [(''en'', [(''welcome'', ''Hello''), (''bye'', ''Bye'')])])"
    by (simp add: loader_b_def)
  have v: "message_of [(''en'', [(''welcome'', ''Hello''), (''bye'', ''Bye'')])] ''en'' ''welcome''
             = Some ''Hello''"
    by (simp add: message_of_def)
  have l: "''en'' \<notin> set prototype_members"
    by (simp add: prototype_members_def)
  have k: "''welcome'' \<noteq> ''__proto__''"
    by simp
  have c: "priv_loaders three_sources ''c'' = Some loader_c"
    by (simp add: three_sources_def)
  have later: "\<forall>n\<in>set [''c'']. \<forall>g u. priv_loaders three_sources n = Some g \<longrightarrow>
                 g (priv_config three_sources) = Inr (Resolved u) \<longrightarrow>
                 message_of u ''en'' ''welcome'' = None"
    by (auto simp: c loader_c_def message_of_def)
  have a: "message_of [(''en'', [(''welcome'', ''Hi'')]), (''fr'', [(''welcome'', ''Salut'')])] ''en'' ''welcome'' = Some ''Hi''"
    by (simp add: message_of_def)
  have declared: "config_loaders (priv_config three_sources)
      = [(''a'', on), (''fs'', off), (''b'', on), (''c'', on)]"
    by (simp add: three_sources_def config_with_def)
  have plain: "\<forall>n\<in>set (map fst (config_loaders (priv_config three_sources))). \<not> is_array_index n"
    unfolding declared by (simp add: is_array_index_def is_digit_def)
  from reload_last_source_wins [OF ok order b t v l k later] plain ok order b v a declared
  show ?thesis by simp
qed

subsection \<open>A reload that fails\<close>

text \<open>
  C2. Whatever the state of the manager, when an enabled source fails to load, by
  throwing when it is called or by a promise that rejects, \<open>reloadTranslations\<close>
  fails with an error for its caller, and the store read by \<open>getTranslations\<close>, the
  flag \<open>hasCachedTranslations\<close> and every other field are what they were before the
  call.
\<close>

theorem reload_failure_keeps_state:
  assumes "name \<in> set (enabled_loaders (priv_config m))"
    and "priv_loaders m name = Some f"
    and "f (priv_config m) = Inl e \<or> f (priv_config m) = Inr (Rejected e)"
  shows "(\<exists>e'. fst (reloadTranslations m) = Inl e') \<and>
         getTranslations (fst (snd (reloadTranslations m))) = getTranslations m \<and>
         hasCachedTranslations (fst (snd (reloadTranslations m))) = hasCachedTranslations m \<and>
         fst (snd (reloadTranslations m)) = m"
proof -
  from assms have "\<exists>e' cs. reloadTranslations m = (Inl e', m, cs)"
    by (intro reload_fails_if_loader_fails [of name]) auto
  then show ?thesis by auto
qed

theorem reload_failure_keeps_state_witness:
  "''c'' \<in> set (enabled_loaders (priv_config after_load)) \<and>
   priv_loaders after_load ''c'' = Some loader_rejecting \<and>
   loader_rejecting (priv_config after_load) = Inr (Rejected (LoaderFailure ''unreadable'')) \<and>
   hasCachedTranslations after_load \<and>
   getTranslationsFor after_load ''en'' = Plain [(''welcome'', ''Hello''), (''bye'', ''Bye'')] \<and>
   (\<exists>e'. fst (reloadTranslations after_load) = Inl e') \<and>
   getTranslations (fst (snd (reloadTranslations after_load))) = getTranslations after_load \<and>
   hasCachedTranslations (fst (snd (reloadTranslations after_load))) \<and>
   fst (snd (reloadTranslations after_load)) = after_load"
proof -
  have enabled: "''c'' \<in> set (enabled_loaders (priv_config after_load))"
    by code_simp
  have c: "priv_loaders after_load ''c'' = Some loader_rejecting"
    by (simp add: after_load_def)
  have rejects: "loader_rejecting (priv_config after_load) = Inr (Rejected (LoaderFailure ''unreadable''))"
    by (simp add: loader_rejecting_def)
  have flag: "hasCachedTranslations after_load"
    by code_simp
  have bye: "getTranslationsFor after_load ''en'' = Plain [(''welcome'', ''Hello''), (''bye'', ''Bye'')]"
    by code_simp
  from reload_failure_keeps_state [OF enabled c disjI2, OF rejects] enabled c rejects flag bye
  show ?thesis by simp
qed




subsection \<open>A reload with no enabled loader\<close>




subsection \<open>Inferred locales\<close>

text \<open>
  C3 asks for an inferred list without duplicates, also when the default locale is
  among the keys of the fallback locales. The loop over the loaded locales skips a
  locale that is already in the list, but the default locale and the keys of the
  fallback locales are concatenated as they are: with the default locale \<^verbatim>\<open>en\<close> and
  the fallback locales \<^verbatim>\<open>{en: 'es', ca: 'es'}\<close> a reload that succeeds leaves
  \<^verbatim>\<open>en\<close> twice in the list.
\<close>

theorem inferred_locales_duplicate:
  "fst (reloadTranslations default_among_fallbacks) = Inr () \<and>
   priv_inferredLocales (fst (snd (reloadTranslations default_among_fallbacks)))
     = [''en'', ''en'', ''ca'', ''fr''] \<and>
   \<not> distinct (priv_inferredLocales (fst (snd (reloadTranslations default_among_fallbacks))))"
proof -
  have "fst (reloadTranslations default_among_fallbacks) = Inr ()"
    by code_simp
  moreover have "priv_inferredLocales (fst (snd (reloadTranslations default_among_fallbacks)))
     = [''en'', ''en'', ''ca'', ''fr'']"
    by code_simp
  ultimately show ?thesis by simp
qed

subsection \<open>Supported locales\<close>

text \<open>
  C4. With an explicit list of supported locales in the configuration,
  \<open>supportedLocales\<close> returns that list, whatever the store and the inferred locales
  hold and after any sequence of calls; with none configured it returns the inferred
  locales.
\<close>

theorem supportedLocales_explicit:
  "(config_supportedLocales (priv_config m) = Some locales \<longrightarrow>
      supportedLocales m = locales \<and>
      supportedLocales (m\<lparr>priv_translations := store, priv_inferredLocales := inferred\<rparr>) = locales \<and>
      supportedLocales (fst (run cmds m)) = locales) \<and>
   (config_supportedLocales (priv_config m) = None \<longrightarrow>
      supportedLocales m = priv_inferredLocales m)"
  by (simp add: supportedLocales_def)

theorem supportedLocales_explicit_witness:
  "config_supportedLocales (priv_config explicit_locales) = Some [''en'', ''fr''] \<and>
   priv_inferredLocales (fst (run [ReloadTranslations] explicit_locales)) = [''en'', ''fr-CA'', ''fr'', ''es''] \<and>
   supportedLocales explicit_locales = [''en'', ''fr''] \<and>
   supportedLocales (explicit_locales\<lparr>priv_translations := [(''de'', Plain [])], priv_inferredLocales := [''de'']\<rparr>)
     = [''en'', ''fr''] \<and>
   supportedLocales (fst (run [ReloadTranslations] explicit_locales)) = [''en'', ''fr''] \<and>
   config_supportedLocales (priv_config three_sources) = None \<and>
   supportedLocales three_sources = priv_inferredLocales three_sources"
proof -
  have explicit: "config_supportedLocales (priv_config explicit_locales) = Some [''en'', ''fr'']"
    by (simp add: explicit_locales_def config_with_def)
  have inferred: "priv_inferredLocales (fst (run [ReloadTranslations] explicit_locales))
                    = [''en'', ''fr-CA'', ''fr'', ''es'']"
    by code_simp
  have none: "config_supportedLocales (priv_config three_sources) = None"
    by (simp add: three_sources_def config_with_def)
  from supportedLocales_explicit
         [where m = explicit_locales and locales = "[''en'', ''fr'']" and store = "[(''de'', Plain [])]"
            and inferred = "[''de'']" and cmds = "[ReloadTranslations]"]
       supportedLocales_explicit [where m = three_sources]
       explicit inferred none
  show ?thesis by simp
qed

subsection \<open>Fallback locales\<close>




subsection \<open>The cached flag\<close>




subsection \<open>The formatter\<close>




end
